theory Spec2Isabelle
  imports Complex_Main
begin

section \<open>Python strings\<close>

text \<open>
  A Python \<open>str\<close> is modelled as a \<open>string\<close>. The model is exact on ASCII text:
  \<open>lower\<close> maps the 26 capital letters, \<open>strip\<close> removes the ASCII characters for
  which \<open>str.isspace\<close> holds, and every other character is left alone.
\<close>

definition isspace :: "char \<Rightarrow> bool" where
  "isspace c = (c \<in> set [CHR 0x09, CHR 0x0A, CHR 0x0B, CHR 0x0C, CHR 0x0D,
                           CHR 0x1C, CHR 0x1D, CHR 0x1E, CHR 0x1F, CHR 0x20])"

definition strip :: "string \<Rightarrow> string" where
  "strip s = rev (dropWhile isspace (rev (dropWhile isspace s)))"

definition lower_char :: "char \<Rightarrow> char" where
  "lower_char c =
     (case map_of (zip ''ABCDEFGHIJKLMNOPQRSTUVWXYZ'' ''abcdefghijklmnopqrstuvwxyz'') c of
        None \<Rightarrow> c
      | Some d \<Rightarrow> d)"

definition lower :: "string \<Rightarrow> string" where
  "lower s = map lower_char s"

text \<open>\<open>s.startswith(p)\<close>.\<close>

fun startswith :: "string \<Rightarrow> string \<Rightarrow> bool" where
  "startswith s [] = True"
| "startswith [] (p # ps) = False"
| "startswith (c # cs) (p # ps) = (c = p \<and> startswith cs ps)"

text \<open>\<open>p in s\<close> on strings: \<open>p\<close> occurs in \<open>s\<close> as a contiguous run.\<close>

fun str_in :: "string \<Rightarrow> string \<Rightarrow> bool" where
  "str_in p [] = (p = [])"
| "str_in p (c # cs) = (startswith (c # cs) p \<or> str_in p cs)"

section \<open>Data frames\<close>

text \<open>
  A cell of a parsed table is either missing (\<open>NaN\<close>) or holds a value, kept as the text
  Python's \<open>str\<close> gives for it. A frame is its column labels and its rows, each row the
  cells in column order; a row shorter than the header reads as padded with \<open>NaN\<close>.
  The row index of a frame plays no part in what follows and is not modelled.
\<close>

datatype cell = NaN | Str string

record frame =
  columns :: "string list"
  rows :: "cell list list"

datatype py_error =
  ValueError | KeyError | AttributeError | ZeroDivisionError | InvalidIndexError | OtherError

text \<open>
  What \<open>pd.read_html(StringIO(html))\<close> does with a page: it raises (\<open>ValueError\<close> when
  it finds no table) or returns the tables in document order. The labels of a returned
  table are given as \<open>str(c)\<close> for each label \<open>c\<close>.
\<close>

datatype read_html_result = Raises py_error | Tables "frame list"

text \<open>\<open>Series.astype(str)\<close>, cell by cell: a missing value becomes the text \<open>nan\<close>.\<close>

definition astype_str :: "cell \<Rightarrow> string" where
  "astype_str v = (case v of NaN \<Rightarrow> ''nan'' | Str s \<Rightarrow> s)"

text \<open>The cell of a row under a label.\<close>

definition get_cell :: "string list \<Rightarrow> cell list \<Rightarrow> string \<Rightarrow> cell" where
  "get_cell cols row c = (case map_of (zip cols row) c of None \<Rightarrow> NaN | Some v \<Rightarrow> v)"

text \<open>
  \<open>df[c]\<close> used as a Series (\<open>df[c].astype(str).str\<close>, \<open>df[c].str\<close>). A label that is
  not a column raises \<open>KeyError\<close>; with a repeated label \<open>df[c]\<close> is a DataFrame, which
  has no \<open>.str\<close>, and the access raises \<open>AttributeError\<close>.
\<close>

definition series :: "frame \<Rightarrow> string \<Rightarrow> py_error + cell list" where
  "series df c =
     (if c \<notin> set (columns df) then Inl KeyError
      else if count_list (columns df) c \<noteq> 1 then Inl AttributeError
      else Inr (map (\<lambda>row. get_cell (columns df) row c) (rows df)))"

text \<open>\<open>df[mask]\<close> with a boolean Series: the rows whose mask entry is true.\<close>

definition mask_rows :: "frame \<Rightarrow> bool list \<Rightarrow> frame" where
  "mask_rows df keep = df\<lparr>rows := map snd (filter fst (zip keep (rows df)))\<rparr>"

text \<open>\<open>df.loc[:, mask]\<close> with a boolean array over the columns.\<close>

definition select_cells :: "bool list \<Rightarrow> 'a list \<Rightarrow> 'a list" where
  "select_cells keep xs = map snd (filter fst (zip keep xs))"

definition select_columns :: "frame \<Rightarrow> bool list \<Rightarrow> frame" where
  "select_columns df keep =
     \<lparr>columns = select_cells keep (columns df), rows = map (select_cells keep) (rows df)\<rparr>"

text \<open>\<open>df.rename(columns=m)\<close>: a label that is a key of \<open>m\<close> is replaced.\<close>

definition rename_label :: "(string \<rightharpoonup> string) \<Rightarrow> string \<Rightarrow> string" where
  "rename_label m c = (case m c of None \<Rightarrow> c | Some d \<Rightarrow> d)"

definition rename_columns :: "frame \<Rightarrow> (string \<rightharpoonup> string) \<Rightarrow> frame" where
  "rename_columns df m = df\<lparr>columns := map (rename_label m) (columns df)\<rparr>"

text \<open>\<open>df.dropna(subset=[c])\<close>: the rows whose cell under \<open>c\<close> is missing go.\<close>

definition dropna :: "frame \<Rightarrow> string \<Rightarrow> frame" where
  "dropna df c = df\<lparr>rows := filter (\<lambda>row. get_cell (columns df) row c \<noteq> NaN) (rows df)\<rparr>"

text \<open>\<open>df[c] = values\<close> for a label that is a column: the cells under \<open>c\<close> are replaced.\<close>

fun assign_cell :: "string list \<Rightarrow> cell list \<Rightarrow> string \<Rightarrow> cell \<Rightarrow> cell list" where
  "assign_cell [] row c v = row"
| "assign_cell (k # ks) [] c v = []"
| "assign_cell (k # ks) (x # xs) c v = (if k = c then v # xs else x # assign_cell ks xs c v)"

definition setitem :: "frame \<Rightarrow> string \<Rightarrow> cell list \<Rightarrow> frame" where
  "setitem df c vals =
     df\<lparr>rows := map (\<lambda>(row, v). assign_cell (columns df) row c v) (zip (rows df) vals)\<rparr>"

text \<open>\<open>df[[c1, ..., cn]]\<close>: the frame of the listed columns.\<close>

definition getitem_list :: "frame \<Rightarrow> string list \<Rightarrow> frame" where
  "getitem_list df cs =
     \<lparr>columns = cs, rows = map (\<lambda>row. map (get_cell (columns df) row) cs) (rows df)\<rparr>"

text \<open>\<open>df.empty\<close>: an axis of length zero.\<close>

definition frame_empty :: "frame \<Rightarrow> bool" where
  "frame_empty df = (rows df = [] \<or> columns df = [])"

text \<open>\<open>cols = [str(c).strip() for c in df.columns]; df.columns = cols\<close>.\<close>

definition strip_columns :: "frame \<Rightarrow> frame" where
  "strip_columns df = df\<lparr>columns := map strip (columns df)\<rparr>"

section \<open>The ranking table\<close>

text \<open>
  \<open>Series.str.contains("page|results", case=False, na=False)\<close> on a Series of strings.
\<close>

definition contains_page_or_results :: "string \<Rightarrow> bool" where
  "contains_page_or_results s = (str_in ''page'' (lower s) \<or> str_in ''results'' (lower s))"

definition ranking_schema :: "string list \<Rightarrow> bool" where
  "ranking_schema cols = (''Rank'' \<in> set cols \<and> ''Player'' \<in> set cols)"

text \<open>Lines 37 to 42 of \<open>extract_ranking_table\<close>: the two row filters.\<close>

definition ranking_filter_rows :: "frame \<Rightarrow> py_error + frame" where
  "ranking_filter_rows df =
     (case series df ''Rank'' of
        Inl e \<Rightarrow> Inl e
      | Inr rank \<Rightarrow>
          let rank_str = map astype_str rank;
              is_bad = map contains_page_or_results rank_str;
              df1 = mask_rows df (map Not is_bad)
          in (case series df1 ''Player'' of
                Inl e \<Rightarrow> Inl e
              | Inr player \<Rightarrow>
                  let player_str = map (\<lambda>v. strip (astype_str v)) player
                  in Inr (mask_rows df1 (map (\<lambda>s. s \<noteq> [] \<and> s \<noteq> ''Player'') player_str))))"

text \<open>Lines 44 to 50: the columns labelled \<open>Unnamed...\<close> go, two labels are renamed.\<close>

definition rename_map :: "string \<rightharpoonup> string" where
  "rename_map = [''Singles points'' \<mapsto> ''Singles Points'', ''Doubles points'' \<mapsto> ''Doubles Points'']"

definition ranking_fix_columns :: "frame \<Rightarrow> frame" where
  "ranking_fix_columns df =
     (let df1 = select_columns df (map (\<lambda>c. \<not> startswith c ''Unnamed'') (columns df))
      in rename_columns df1 rename_map)"

definition ranking_sanitize :: "frame \<Rightarrow> py_error + frame" where
  "ranking_sanitize df =
     (case ranking_filter_rows df of Inl e \<Rightarrow> Inl e | Inr df1 \<Rightarrow> Inr (ranking_fix_columns df1))"

text \<open>The loop over the tables, lines 30 to 54.\<close>

fun ranking_loop :: "frame list \<Rightarrow> py_error + frame option" where
  "ranking_loop [] = Inr None"
| "ranking_loop (df # tables) =
     (let df1 = strip_columns df in
      if \<not> ranking_schema (columns df1) then ranking_loop tables
      else (case ranking_sanitize df1 of Inl e \<Rightarrow> Inl e | Inr df2 \<Rightarrow> Inr (Some df2)))"

definition extract_ranking_table :: "read_html_result \<Rightarrow> py_error + frame option" where
  "extract_ranking_table html =
     (case html of
        Raises e \<Rightarrow> (if e = ValueError then Inr None else Inl e)
      | Tables tables \<Rightarrow> ranking_loop tables)"

section \<open>The online entries table\<close>

definition invalid_names :: "string set" where
  "invalid_names = {[], ''name'', ''nan'', ''none''}"

definition entries_schema :: "string list \<Rightarrow> bool" where
  "entries_schema cols = (''Name'' \<in> set cols \<and> list_ex (\<lambda>c. str_in ''date'' (lower c)) cols)"

text \<open>Lines 81 to 83: without a \<open>Status\<close> column the frame is left as it is.\<close>

definition drop_withdrawn :: "frame \<Rightarrow> py_error + frame" where
  "drop_withdrawn df =
     (if ''Status'' \<in> set (columns df) then
        (case series df ''Status'' of
           Inl e \<Rightarrow> Inl e
         | Inr status \<Rightarrow>
             let status_str = map (\<lambda>v. lower (astype_str v)) status
             in Inr (mask_rows df (map (\<lambda>s. \<not> str_in ''withdrawn'' s) status_str)))
      else Inr df)"

text \<open>
  Lines 87 to 95. \<open>df["Name"].str.lower()\<close> leaves a missing value missing, and a
  missing value is in no set of names.
\<close>

definition clean_names :: "frame \<Rightarrow> py_error + frame" where
  "clean_names df =
     (let df1 = dropna df ''Name'' in
      case series df1 ''Name'' of
        Inl e \<Rightarrow> Inl e
      | Inr name \<Rightarrow>
          let df2 = setitem df1 ''Name'' (map (\<lambda>v. Str (strip (astype_str v))) name) in
          (case series df2 ''Name'' of
             Inl e \<Rightarrow> Inl e
           | Inr name2 \<Rightarrow>
               let mask_valid =
                     map (\<lambda>v. case v of NaN \<Rightarrow> True | Str s \<Rightarrow> lower s \<notin> invalid_names) name2
               in Inr (mask_rows df2 mask_valid)))"

text \<open>Lines 81 to 95 together, and with the projection of line 100.\<close>

definition entries_clean :: "frame \<Rightarrow> py_error + frame" where
  "entries_clean df = (case drop_withdrawn df of Inl e \<Rightarrow> Inl e | Inr df1 \<Rightarrow> clean_names df1)"

definition entries_sanitize :: "frame \<Rightarrow> py_error + frame" where
  "entries_sanitize df =
     (case entries_clean df of Inl e \<Rightarrow> Inl e | Inr df1 \<Rightarrow> Inr (getitem_list df1 [''Name'']))"

text \<open>The loop over the tables, lines 71 to 102.\<close>

fun entries_loop :: "frame list \<Rightarrow> py_error + frame option" where
  "entries_loop [] = Inr None"
| "entries_loop (df # tables) =
     (let df1 = strip_columns df in
      if ''Name'' \<notin> set (columns df1) then entries_loop tables
      else if \<not> list_ex (\<lambda>c. str_in ''date'' (lower c)) (columns df1) then entries_loop tables
      else (case entries_clean df1 of
              Inl e \<Rightarrow> Inl e
            | Inr df2 \<Rightarrow>
                if frame_empty df2 then entries_loop tables
                else Inr (Some (getitem_list df2 [''Name'']))))"

definition extract_online_entries_table :: "read_html_result \<Rightarrow> py_error + frame option" where
  "extract_online_entries_table html =
     (case html of
        Raises e \<Rightarrow> (if e = ValueError then Inr None else Inl e)
      | Tables tables \<Rightarrow> entries_loop tables)"

section \<open>The rankings aggregator\<close>



text \<open>\<open>sum(len(t) for t in all_tables)\<close>.\<close>

definition total_rows :: "frame list \<Rightarrow> int" where
  "total_rows all_tables = int (sum_list (map (\<lambda>t. length (rows t)) all_tables))"






text \<open>\<open>df.drop(columns=[c])\<close> for a label that is a column; lines 175 and 176.\<close>

definition drop_columns :: "frame \<Rightarrow> string \<Rightarrow> frame" where
  "drop_columns df c = select_columns df (map (\<lambda>k. k \<noteq> c) (columns df))"

definition drop_rank1 :: "frame \<Rightarrow> frame" where
  "drop_rank1 combined =
     (if ''Rank.1'' \<in> set (columns combined) then drop_columns combined ''Rank.1'' else combined)"





section \<open>The rows the filters keep, row by row\<close>

text \<open>
  The code computes its masks column by column. These are the same tests read on one
  row: the stringified Rank cell, the stringified and trimmed Player cell, and the
  three tests of the entries table.
\<close>

definition rank_text :: "string list \<Rightarrow> cell list \<Rightarrow> string" where
  "rank_text cols row = astype_str (get_cell cols row ''Rank'')"

definition player_text :: "string list \<Rightarrow> cell list \<Rightarrow> string" where
  "player_text cols row = strip (astype_str (get_cell cols row ''Player''))"

definition ranking_row_dropped :: "string list \<Rightarrow> cell list \<Rightarrow> bool" where
  "ranking_row_dropped cols row =
     (str_in ''page'' (lower (rank_text cols row)) \<or>
      str_in ''results'' (lower (rank_text cols row)) \<or>
      player_text cols row = [] \<or>
      player_text cols row = ''Player'')"

definition withdrawn_row :: "string list \<Rightarrow> cell list \<Rightarrow> bool" where
  "withdrawn_row cols row =
     (''Status'' \<in> set cols \<and>
      str_in ''withdrawn'' (lower (astype_str (get_cell cols row ''Status''))))"

definition name_text :: "string list \<Rightarrow> cell list \<Rightarrow> string" where
  "name_text cols row = strip (astype_str (get_cell cols row ''Name''))"

definition entry_row_kept :: "string list \<Rightarrow> cell list \<Rightarrow> bool" where
  "entry_row_kept cols row =
     (\<not> withdrawn_row cols row \<and>
      get_cell cols row ''Name'' \<noteq> NaN \<and>
      lower (name_text cols row) \<notin> invalid_names)"

text \<open>A row after line 90: its Name cell holds the trimmed text.\<close>

definition with_name :: "string list \<Rightarrow> cell list \<Rightarrow> cell list" where
  "with_name cols row = assign_cell cols row ''Name'' (Str (name_text cols row))"

section \<open>Facts about strings, lists and the frame operations\<close>

text \<open>The lemmas the proofs below share.\<close>

lemma columns_strip_columns [simp]: "columns (strip_columns df) = map strip (columns df)"
  by (simp add: strip_columns_def)

lemma rows_strip_columns [simp]: "rows (strip_columns df) = rows df"
  by (simp add: strip_columns_def)

lemma dropWhile_rev_dropWhile:
  assumes "xs = [] \<or> \<not> P (hd xs)"
  shows "dropWhile P (rev (dropWhile P (rev xs))) = rev (dropWhile P (rev xs))"
proof (cases "dropWhile P (rev xs) = []")
  case True
  show ?thesis by (simp only: True rev.simps dropWhile.simps)
next
  case False
  let ?w = "rev (dropWhile P (rev xs))"
  have split: "xs = ?w @ rev (takeWhile P (rev xs))"
    by (metis rev_append rev_rev_ident takeWhile_dropWhile_id)
  from False have ne: "?w \<noteq> []" by simp
  then have "hd xs = hd ?w" using split by (metis hd_append2)
  moreover from ne split have "xs \<noteq> []" by auto
  ultimately have "\<not> P (hd ?w)" using assms by auto
  with ne show ?thesis by (cases ?w) auto
qed

lemma strip_idem: "strip (strip s) = strip s"
proof -
  let ?t = "dropWhile isspace s"
  have h: "?t = [] \<or> \<not> isspace (hd ?t)" by (metis hd_dropWhile)
  have "dropWhile isspace (rev (dropWhile isspace (rev ?t))) = rev (dropWhile isspace (rev ?t))"
    using h by (rule dropWhile_rev_dropWhile)
  then show ?thesis by (simp add: strip_def)
qed

lemma count_list_once_mem: "count_list xs c = 1 \<Longrightarrow> c \<in> set xs"
proof (rule ccontr)
  assume a: "count_list xs c = 1" and "c \<notin> set xs"
  then have "count_list xs c = 0" by (simp add: count_list_0_iff)
  with a show False by simp
qed

lemma count_list_mem_le1: "c \<in> set xs \<Longrightarrow> count_list xs c \<le> 1 \<Longrightarrow> count_list xs c = 1"
proof -
  assume m: "c \<in> set xs" and l: "count_list xs c \<le> 1"
  from m have "count_list xs c \<noteq> 0" by (simp add: count_list_0_iff)
  with l show ?thesis by simp
qed

lemma count_list_filter_keep: "p y \<Longrightarrow> count_list (filter p xs) y = count_list xs y"
  by (induction xs) auto

lemma count_list_map_fixed:
  assumes "\<forall>x. (f x = y) = (x = y)"
  shows "count_list (map f xs) y = count_list xs y"
proof (induction xs)
  case Nil
  then show ?case by simp
next
  case (Cons c xs)
  from assms have "(f c = y) = (c = y)" by (rule spec)
  then show ?case using Cons.IH by (cases "c = y") simp_all
qed

lemma map_of_filter_keep: "p y \<Longrightarrow> map_of (filter (\<lambda>(c, v). p c) xs) y = map_of xs y"
  by (induction xs) auto

lemma map_of_map_fixed:
  assumes "\<forall>x. (f x = y) = (x = y)"
  shows "map_of (map (\<lambda>(c, v). (f c, v)) xs) y = map_of xs y"
proof (induction xs)
  case Nil
  then show ?case by simp
next
  case (Cons p xs)
  obtain c v where p: "p = (c, v)" by (cases p)
  from assms have "(f c = y) = (c = y)" by (rule spec)
  then show ?case using Cons.IH by (cases "c = y") (simp_all add: p)
qed

lemma filter_absent: "c \<notin> set xs \<Longrightarrow> filter (\<lambda>k. k \<noteq> c) xs = xs"
  by (induction xs) auto

lemma filter_zip_absent: "c \<notin> set xs \<Longrightarrow> filter (\<lambda>(k, v). k \<noteq> c) (zip xs ys) = zip xs ys"
proof (induction xs arbitrary: ys)
  case Nil
  then show ?case by simp
next
  case (Cons x xs)
  then show ?case by (cases ys) auto
qed

lemma map_zip_map: "map (\<lambda>(x, v). F x v) (zip xs (map h xs)) = map (\<lambda>x. F x (h x)) xs"
  by (induction xs) simp_all

lemma mask_filter: "map snd (filter fst (zip (map p xs) xs)) = filter p xs"
  by (induction xs) auto

lemma series_once:
  "count_list (columns df) c = 1 \<Longrightarrow>
   series df c = Inr (map (\<lambda>row. get_cell (columns df) row c) (rows df))"
proof -
  assume a: "count_list (columns df) c = 1"
  have "c \<in> set (columns df)"
  proof (rule ccontr)
    assume "c \<notin> set (columns df)"
    then have "count_list (columns df) c = 0" by (simp add: count_list_0_iff)
    with a show False by simp
  qed
  with a show ?thesis by (simp add: series_def)
qed

lemma series_Inr_once: "series df c = Inr xs \<Longrightarrow> count_list (columns df) c = 1"
  by (auto simp add: series_def split: if_splits)

lemma mask_rows_filter:
  "mask_rows df (map p (map f (rows df))) = df\<lparr>rows := filter (\<lambda>row. p (f row)) (rows df)\<rparr>"
proof -
  have "map p (map f (rows df)) = map (\<lambda>row. p (f row)) (rows df)" by simp
  then show ?thesis unfolding mask_rows_def by (simp only: mask_filter)
qed

lemma zip_select_cells:
  "zip (select_cells keep cols) (select_cells keep row) =
     map snd (filter fst (zip keep (zip cols row)))"
  unfolding select_cells_def
proof (induction keep arbitrary: cols row)
  case Nil
  then show ?case by simp
next
  case (Cons k keep)
  show ?case
  proof (cases cols)
    case Nil
    then show ?thesis by simp
  next
    case c: (Cons c cs)
    show ?thesis
    proof (cases row)
      case Nil
      then show ?thesis by simp
    next
      case (Cons v vs)
      with c Cons.IH [of cs vs] show ?thesis by simp
    qed
  qed
qed

lemma select_cells_by_label:
  "select_cells (map p cols) cols = filter p cols"
  unfolding select_cells_def by (rule mask_filter)

lemma zip_select_by_label:
  "zip (select_cells (map p cols) cols) (select_cells (map p cols) row) =
     filter (\<lambda>(c, v). p c) (zip cols row)"
proof -
  have "map snd (filter fst (zip (map p cols) (zip cols row))) = filter (\<lambda>(c, v). p c) (zip cols row)"
  proof (induction cols arbitrary: row)
    case Nil
    then show ?case by simp
  next
    case (Cons c cs)
    then show ?case by (cases row) simp_all
  qed
  then show ?thesis by (simp only: zip_select_cells)
qed

lemma select_cells_all:
  "\<forall>k \<in> set keep. k \<Longrightarrow> length xs \<le> length keep \<Longrightarrow> select_cells keep xs = xs"
  unfolding select_cells_def
proof (induction keep arbitrary: xs)
  case Nil
  then show ?case by simp
next
  case (Cons k keep)
  show ?case
  proof (cases xs)
    case Nil
    then show ?thesis by simp
  next
    case (Cons y ys)
    from Cons.prems have a: "\<forall>b \<in> set keep. b" by (meson list.set_intros(2))
    from Cons.prems have b: "k" by (meson list.set_intros(1))
    from Cons.prems Cons have c: "length ys \<le> length keep" by simp
    from Cons.IH [OF a c] b Cons show ?thesis by simp
  qed
qed

lemma length_select_cells:
  "length (select_cells (map p cols) row) \<le> length (filter p cols)"
  unfolding select_cells_def
proof (induction cols arbitrary: row)
  case Nil
  then show ?case by simp
next
  case (Cons c cs)
  show ?case
  proof (cases row)
    case Nil
    then show ?thesis by simp
  next
    case (Cons v vs)
    with Cons.IH [of vs] show ?thesis by simp
  qed
qed

lemma get_cell_assign_cell:
  "map_of (zip cols row) c \<noteq> None \<Longrightarrow> get_cell cols (assign_cell cols row c v) c = v"
  unfolding get_cell_def
proof (induction cols row c v rule: assign_cell.induct)
  case (1 row c v)
  then show ?case by simp
next
  case (2 k ks c v)
  then show ?case by simp
next
  case (3 k ks x xs c v)
  then show ?case by (cases "k = c") simp_all
qed

lemma get_cell_present: "get_cell cols row c \<noteq> NaN \<Longrightarrow> map_of (zip cols row) c \<noteq> None"
  by (cases "map_of (zip cols row) c") (simp_all add: get_cell_def)

section \<open>Evaluating the model on a given table\<close>

text \<open>The defining equations, collected for the simplifier where a table is given in full.\<close>

lemmas string_eval = lower_def lower_char_def strip_def isspace_def

lemmas frame_eval = astype_str_def get_cell_def series_def mask_rows_def select_cells_def
  select_columns_def rename_label_def rename_columns_def dropna_def setitem_def
  getitem_list_def frame_empty_def strip_columns_def

lemmas ranking_eval = contains_page_or_results_def ranking_schema_def ranking_filter_rows_def
  rename_map_def ranking_fix_columns_def ranking_sanitize_def

lemmas entries_eval = invalid_names_def entries_schema_def drop_withdrawn_def clean_names_def
  entries_clean_def entries_sanitize_def


section \<open>The ranking table: the rows kept\<close>

lemma ranking_filter_rows_eq:
  assumes "count_list (columns df) ''Rank'' = 1" and "count_list (columns df) ''Player'' = 1"
  shows "ranking_filter_rows df =
           Inr (df\<lparr>rows := filter (\<lambda>row. \<not> ranking_row_dropped (columns df) row) (rows df)\<rparr>)"
proof -
  let ?df1 = "df\<lparr>rows := filter (\<lambda>row. \<not> contains_page_or_results (astype_str (get_cell (columns df) row ''Rank''))) (rows df)\<rparr>"
  have s1: "series df ''Rank'' = Inr (map (\<lambda>row. get_cell (columns df) row ''Rank'') (rows df))"
    using assms(1) by (rule series_once)
  have m1: "mask_rows df (map Not (map contains_page_or_results (map astype_str
              (map (\<lambda>row. get_cell (columns df) row ''Rank'') (rows df))))) = ?df1"
    using mask_rows_filter [of df "\<lambda>v. \<not> contains_page_or_results (astype_str v)" "\<lambda>row. get_cell (columns df) row ''Rank''"]
    by (simp add: comp_def)
  have c1: "count_list (columns ?df1) ''Player'' = 1" using assms(2) by simp
  have s2: "series ?df1 ''Player'' = Inr (map (\<lambda>row. get_cell (columns df) row ''Player'') (rows ?df1))"
    using series_once [OF c1] by simp
  have m2: "mask_rows ?df1 (map (\<lambda>s. s \<noteq> [] \<and> s \<noteq> ''Player'') (map (\<lambda>v. strip (astype_str v))
              (map (\<lambda>row. get_cell (columns df) row ''Player'') (rows ?df1)))) =
            ?df1\<lparr>rows := filter (\<lambda>row. strip (astype_str (get_cell (columns df) row ''Player'')) \<noteq> [] \<and>
                                       strip (astype_str (get_cell (columns df) row ''Player'')) \<noteq> ''Player'') (rows ?df1)\<rparr>"
    using mask_rows_filter [of ?df1 "\<lambda>v. strip (astype_str v) \<noteq> [] \<and> strip (astype_str v) \<noteq> ''Player''" "\<lambda>row. get_cell (columns df) row ''Player''"]
    by (simp add: comp_def)
  have "ranking_filter_rows df = Inr (?df1\<lparr>rows := filter (\<lambda>row. strip (astype_str (get_cell (columns df) row ''Player'')) \<noteq> [] \<and>
                                       strip (astype_str (get_cell (columns df) row ''Player'')) \<noteq> ''Player'') (rows ?df1)\<rparr>)"
    unfolding ranking_filter_rows_def by (simp only: s1 Let_def sum.case m1 s2 m2)
  also have "\<dots> = Inr (df\<lparr>rows := filter (\<lambda>row. \<not> ranking_row_dropped (columns df) row) (rows df)\<rparr>)"
  proof -
    have "filter (\<lambda>row. strip (astype_str (get_cell (columns df) row ''Player'')) \<noteq> [] \<and>
                        strip (astype_str (get_cell (columns df) row ''Player'')) \<noteq> ''Player'')
            (filter (\<lambda>row. \<not> contains_page_or_results (astype_str (get_cell (columns df) row ''Rank''))) (rows df)) =
          filter (\<lambda>row. \<not> ranking_row_dropped (columns df) row) (rows df)"
      unfolding filter_filter
      by (rule filter_cong)
        (auto simp add: ranking_row_dropped_def rank_text_def player_text_def contains_page_or_results_def)
    then show ?thesis by simp
  qed
  finally show ?thesis .
qed

lemma columns_ranking_fix_columns:
  "columns (ranking_fix_columns df) =
     map (rename_label rename_map) (filter (\<lambda>c. \<not> startswith c ''Unnamed'') (columns df))"
  by (simp add: ranking_fix_columns_def rename_columns_def select_columns_def
      select_cells_by_label)

lemma rows_ranking_fix_columns:
  "rows (ranking_fix_columns df) =
     map (select_cells (map (\<lambda>c. \<not> startswith c ''Unnamed'') (columns df))) (rows df)"
  by (simp add: ranking_fix_columns_def rename_columns_def select_columns_def)

lemma ranking_sanitize_eq:
  assumes "count_list (columns df) ''Rank'' = 1" and "count_list (columns df) ''Player'' = 1"
  shows "ranking_sanitize df =
           Inr (ranking_fix_columns
                  (df\<lparr>rows := filter (\<lambda>row. \<not> ranking_row_dropped (columns df) row) (rows df)\<rparr>))"
  by (simp add: ranking_sanitize_def ranking_filter_rows_eq [OF assms])



section \<open>The ranking table: the columns\<close>

lemma rename_label_points:
  "rename_label rename_map c =
     (if c = ''Singles points'' then ''Singles Points''
      else if c = ''Doubles points'' then ''Doubles Points'' else c)"
  by (simp add: rename_label_def rename_map_def)

lemma labelled_ranking_fix_columns:
  "map (zip (columns (ranking_fix_columns df))) (rows (ranking_fix_columns df)) =
     map (\<lambda>row. map (\<lambda>(c, v). (rename_label rename_map c, v))
                  (filter (\<lambda>(c, v). \<not> startswith c ''Unnamed'') (zip (columns df) row)))
         (rows df)"
proof -
  have "zip (map (rename_label rename_map) (filter (\<lambda>c. \<not> startswith c ''Unnamed'') (columns df)))
            (select_cells (map (\<lambda>c. \<not> startswith c ''Unnamed'') (columns df)) row) =
        map (\<lambda>(c, v). (rename_label rename_map c, v))
            (filter (\<lambda>(c, v). \<not> startswith c ''Unnamed'') (zip (columns df) row))" for row
    using zip_select_by_label [of "\<lambda>c. \<not> startswith c ''Unnamed''" "columns df" row]
    by (simp add: zip_map1 select_cells_by_label)
  then show ?thesis
    unfolding columns_ranking_fix_columns rows_ranking_fix_columns map_map comp_def
    by (intro map_cong refl)
qed

text \<open>
  Claim C6. The column steps of the ranking table (lines 44 to 50) remove every column
  whose label starts with \<open>Unnamed\<close> and rename \<open>Singles points\<close> to \<open>Singles Points\<close>
  and \<open>Doubles points\<close> to \<open>Doubles Points\<close>; any other label is left as it is. The rows
  stay as many and in the same order, and each row keeps, under the labels that remain,
  the cells it had.
\<close>

theorem ranking_columns_fixed:
  "columns (ranking_fix_columns df) =
     map (rename_label rename_map) (filter (\<lambda>c. \<not> startswith c ''Unnamed'') (columns df)) \<and>
   rename_label rename_map ''Singles points'' = ''Singles Points'' \<and>
   rename_label rename_map ''Doubles points'' = ''Doubles Points'' \<and>
   (c \<noteq> ''Singles points'' \<and> c \<noteq> ''Doubles points'' \<longrightarrow> rename_label rename_map c = c) \<and>
   length (rows (ranking_fix_columns df)) = length (rows df) \<and>
   map (zip (columns (ranking_fix_columns df))) (rows (ranking_fix_columns df)) =
     map (\<lambda>row. map (\<lambda>(c, v). (rename_label rename_map c, v))
                  (filter (\<lambda>(c, v). \<not> startswith c ''Unnamed'') (zip (columns df) row)))
         (rows df)"
  using columns_ranking_fix_columns [of df] labelled_ranking_fix_columns [of df]
  by (simp add: rename_label_points rows_ranking_fix_columns)

theorem ranking_columns_fixed_witness:
  "columns (ranking_fix_columns
      \<lparr>columns = [''Unnamed: 0'', ''Rank'', ''Player'', ''Singles points'', ''Doubles points'', ''County''],
       rows = [[NaN, Str ''1'', Str ''Ann Lee'', Str ''120'', Str ''40'', Str ''Kent'']]\<rparr>) =
     [''Rank'', ''Player'', ''Singles Points'', ''Doubles Points'', ''County''] \<and>
   rename_label rename_map ''County'' = ''County'' \<and>
   map (zip (columns (ranking_fix_columns
      \<lparr>columns = [''Unnamed: 0'', ''Rank'', ''Player'', ''Singles points'', ''Doubles points'', ''County''],
       rows = [[NaN, Str ''1'', Str ''Ann Lee'', Str ''120'', Str ''40'', Str ''Kent'']]\<rparr>)))
     (rows (ranking_fix_columns
      \<lparr>columns = [''Unnamed: 0'', ''Rank'', ''Player'', ''Singles points'', ''Doubles points'', ''County''],
       rows = [[NaN, Str ''1'', Str ''Ann Lee'', Str ''120'', Str ''40'', Str ''Kent'']]\<rparr>)) =
     [[(''Rank'', Str ''1''), (''Player'', Str ''Ann Lee''), (''Singles Points'', Str ''120''),
       (''Doubles Points'', Str ''40''), (''County'', Str ''Kent'')]]"
  using ranking_columns_fixed [of
      "\<lparr>columns = [''Unnamed: 0'', ''Rank'', ''Player'', ''Singles points'', ''Doubles points'', ''County''],
        rows = [[NaN, Str ''1'', Str ''Ann Lee'', Str ''120'', Str ''40'', Str ''Kent'']]\<rparr>"
      "''County''"]
  by (simp add: rename_label_points ranking_fix_columns_def select_columns_def
      select_cells_def rename_columns_def)

section \<open>The ranking table: which table is taken\<close>

lemma ranking_loop_skip:
  "\<forall>df \<in> set pre. \<not> ranking_schema (map strip (columns df)) \<Longrightarrow>
   ranking_loop (pre @ rest) = ranking_loop rest"
  by (induction pre) (simp_all add: Let_def)

lemma ranking_loop_match:
  "ranking_schema (map strip (columns t)) \<Longrightarrow>
   ranking_loop (t # post) =
     (case ranking_sanitize (strip_columns t) of Inl e \<Rightarrow> Inl e | Inr r \<Rightarrow> Inr (Some r))"
  by (simp add: Let_def)

text \<open>
  Claim C2. \<open>extract_ranking_table\<close> returns what the sanitization makes of the
  first table, in document order, whose trimmed header has both \<open>Rank\<close> and \<open>Player\<close>.
  The tables before it, which fail the test, and the tables after it, whatever they
  are, have no part in the result.
\<close>

theorem first_ranking_table_selected:
  assumes "\<forall>df \<in> set pre. \<not> ranking_schema (map strip (columns df))"
      and "ranking_schema (map strip (columns t))"
  shows "extract_ranking_table (Tables (pre @ t # post)) =
           (case ranking_sanitize (strip_columns t) of Inl e \<Rightarrow> Inl e | Inr r \<Rightarrow> Inr (Some r))"
  by (simp add: extract_ranking_table_def ranking_loop_skip [OF assms(1)] Let_def assms(2))

theorem first_ranking_table_selected_witness:
  "extract_ranking_table (Tables
     ([\<lparr>columns = [''rank'', ''PLAYER''], rows = [[Str ''9'', Str ''Zed'']]\<rparr>,
       \<lparr>columns = [''Club''], rows = [[Str ''LTC'']]\<rparr>] @
      \<lparr>columns = ['' Rank'', ''Player ''], rows = [[Str ''1'', Str ''Ann Lee'']]\<rparr> #
      [\<lparr>columns = [''Rank'', ''Player''], rows = [[Str ''2'', Str ''Bo Roy'']]\<rparr>])) =
   Inr (Some \<lparr>columns = [''Rank'', ''Player''], rows = [[Str ''1'', Str ''Ann Lee'']]\<rparr>)"
proof -
  have pre: "\<forall>df \<in> set [\<lparr>columns = [''rank'', ''PLAYER''], rows = [[Str ''9'', Str ''Zed'']]\<rparr>,
                          \<lparr>columns = [''Club''], rows = [[Str ''LTC'']]\<rparr>].
               \<not> ranking_schema (map strip (columns df))"
    by (simp add: ranking_schema_def strip_def isspace_def)
  have t: "ranking_schema (map strip (columns
             \<lparr>columns = ['' Rank'', ''Player ''], rows = [[Str ''1'', Str ''Ann Lee'']]\<rparr>))"
    by (simp add: ranking_schema_def strip_def isspace_def)
  have s: "ranking_sanitize (strip_columns
             \<lparr>columns = ['' Rank'', ''Player ''], rows = [[Str ''1'', Str ''Ann Lee'']]\<rparr>) =
           Inr \<lparr>columns = [''Rank'', ''Player''], rows = [[Str ''1'', Str ''Ann Lee'']]\<rparr>"
    by (simp add: ranking_sanitize_def ranking_filter_rows_def series_def mask_rows_def
        strip_columns_def ranking_fix_columns_def select_columns_def select_cells_def
        rename_columns_def rename_label_points get_cell_def astype_str_def
        contains_page_or_results_def lower_def lower_char_def strip_def isspace_def)
  show ?thesis
    using first_ranking_table_selected [OF pre t] by (simp only: s sum.case)
qed



section \<open>The online entries table: the rows kept\<close>

lemma drop_withdrawn_eq:
  assumes "count_list (columns df) ''Status'' \<le> 1"
  shows "drop_withdrawn df =
           Inr (df\<lparr>rows := filter (\<lambda>row. \<not> withdrawn_row (columns df) row) (rows df)\<rparr>)"
proof (cases "''Status'' \<in> set (columns df)")
  case True
  then have c: "count_list (columns df) ''Status'' = 1"
    using assms by (rule count_list_mem_le1)
  have m: "mask_rows df (map (\<lambda>s. \<not> str_in ''withdrawn'' s) (map (\<lambda>v. lower (astype_str v))
             (map (\<lambda>row. get_cell (columns df) row ''Status'') (rows df)))) =
           df\<lparr>rows := filter (\<lambda>row. \<not> str_in ''withdrawn''
                  (lower (astype_str (get_cell (columns df) row ''Status'')))) (rows df)\<rparr>"
    using mask_rows_filter [of df "\<lambda>v. \<not> str_in ''withdrawn'' (lower (astype_str v))"
        "\<lambda>row. get_cell (columns df) row ''Status''"]
    by (simp add: comp_def)
  show ?thesis
    unfolding drop_withdrawn_def
    by (simp only: True if_True series_once [OF c] sum.case Let_def m)
      (simp add: withdrawn_row_def True)
next
  case False
  then show ?thesis by (simp add: drop_withdrawn_def withdrawn_row_def)
qed

lemma clean_names_eq:
  assumes "count_list (columns df) ''Name'' = 1"
  shows "clean_names df =
           Inr (df\<lparr>rows := map (with_name (columns df))
                  (filter (\<lambda>row. get_cell (columns df) row ''Name'' \<noteq> NaN \<and>
                                 lower (name_text (columns df) row) \<notin> invalid_names) (rows df))\<rparr>)"
proof -
  let ?cols = "columns df"
  let ?get = "\<lambda>row. get_cell ?cols row ''Name''"
  let ?rows1 = "filter (\<lambda>row. ?get row \<noteq> NaN) (rows df)"
  let ?df1 = "df\<lparr>rows := ?rows1\<rparr>"
  let ?rows2 = "map (with_name ?cols) ?rows1"
  let ?df2 = "df\<lparr>rows := ?rows2\<rparr>"
  let ?q = "\<lambda>v. case v of NaN \<Rightarrow> True | Str s \<Rightarrow> lower s \<notin> invalid_names"
  have d: "dropna df ''Name'' = ?df1" by (simp add: dropna_def)
  have c1: "count_list (columns ?df1) ''Name'' = 1" using assms by simp
  have s1: "series ?df1 ''Name'' = Inr (map ?get ?rows1)"
    using series_once [OF c1] by simp
  have st: "setitem ?df1 ''Name'' (map (\<lambda>v. Str (strip (astype_str v))) (map ?get ?rows1)) = ?df2"
    using map_zip_map [of "\<lambda>row v. assign_cell ?cols row ''Name'' v"
        ?rows1 "\<lambda>row. Str (strip (astype_str (?get row)))"]
    by (simp add: setitem_def comp_def with_name_def name_text_def)
  have c2: "count_list (columns ?df2) ''Name'' = 1" using assms by simp
  have s2: "series ?df2 ''Name'' = Inr (map ?get (rows ?df2))"
    using series_once [OF c2] by simp
  have m: "mask_rows ?df2 (map ?q (map ?get (rows ?df2))) =
           ?df2\<lparr>rows := filter (\<lambda>row. ?q (?get row)) (rows ?df2)\<rparr>"
    by (rule mask_rows_filter)
  have g: "?get (with_name ?cols row) = Str (name_text ?cols row)" if "?get row \<noteq> NaN" for row
    unfolding with_name_def
    by (rule get_cell_assign_cell) (rule get_cell_present [OF that])
  have f: "filter (\<lambda>row. ?q (?get row)) ?rows2 =
           map (with_name ?cols)
             (filter (\<lambda>row. ?get row \<noteq> NaN \<and> lower (name_text ?cols row) \<notin> invalid_names) (rows df))"
  proof -
    have "filter (\<lambda>row. ?q (?get row)) ?rows2 =
          map (with_name ?cols) (filter (\<lambda>row. ?q (?get (with_name ?cols row))) ?rows1)"
      by (simp add: filter_map comp_def)
    also have "filter (\<lambda>row. ?q (?get (with_name ?cols row))) ?rows1 =
               filter (\<lambda>row. ?get row \<noteq> NaN \<and> lower (name_text ?cols row) \<notin> invalid_names) (rows df)"
      unfolding filter_filter
      by (rule filter_cong) (auto simp add: g)
    finally show ?thesis .
  qed
  have "clean_names df = Inr (?df2\<lparr>rows := filter (\<lambda>row. ?q (?get row)) (rows ?df2)\<rparr>)"
    unfolding clean_names_def by (simp only: d Let_def s1 sum.case st s2 m)
  then show ?thesis by (simp add: f)
qed

lemma entries_clean_eq:
  assumes "count_list (columns df) ''Name'' = 1" and "count_list (columns df) ''Status'' \<le> 1"
  shows "entries_clean df =
           Inr (df\<lparr>rows := map (with_name (columns df))
                  (filter (entry_row_kept (columns df)) (rows df))\<rparr>)"
proof -
  let ?df1 = "df\<lparr>rows := filter (\<lambda>row. \<not> withdrawn_row (columns df) row) (rows df)\<rparr>"
  have c: "count_list (columns ?df1) ''Name'' = 1" using assms(1) by simp
  have "filter (\<lambda>row. get_cell (columns df) row ''Name'' \<noteq> NaN \<and>
                      lower (name_text (columns df) row) \<notin> invalid_names)
          (filter (\<lambda>row. \<not> withdrawn_row (columns df) row) (rows df)) =
        filter (entry_row_kept (columns df)) (rows df)"
    unfolding filter_filter by (rule filter_cong) (auto simp add: entry_row_kept_def)
  then show ?thesis
    using clean_names_eq [OF c]
    by (simp add: entries_clean_def drop_withdrawn_eq [OF assms(2)])
qed

lemma entries_sanitize_eq:
  assumes "count_list (columns df) ''Name'' = 1" and "count_list (columns df) ''Status'' \<le> 1"
  shows "entries_sanitize df =
           Inr \<lparr>columns = [''Name''],
                rows = map (\<lambda>row. [Str (name_text (columns df) row)])
                         (filter (entry_row_kept (columns df)) (rows df))\<rparr>"
proof -
  have "get_cell (columns df) (with_name (columns df) row) ''Name'' = Str (name_text (columns df) row)"
    if "entry_row_kept (columns df) row" for row
    unfolding with_name_def
    by (rule get_cell_assign_cell) (rule get_cell_present, use that in \<open>simp add: entry_row_kept_def\<close>)
  then have "map (\<lambda>row. [get_cell (columns df) (with_name (columns df) row) ''Name''])
               (filter (entry_row_kept (columns df)) (rows df)) =
             map (\<lambda>row. [Str (name_text (columns df) row)])
               (filter (entry_row_kept (columns df)) (rows df))"
    by (intro map_cong refl) simp
  then show ?thesis
    by (simp add: entries_sanitize_def entries_clean_eq [OF assms] getitem_list_def comp_def)
qed

text \<open>
  Claim C4. On a table with one \<open>Name\<close> column and at most one \<open>Status\<close> column, the
  steps of lines 81 to 100 keep the rows that are not withdrawn (a \<open>Status\<close> column
  exists and the lower-cased Status cell contains \<open>withdrawn\<close>), whose Name is not
  missing, and whose trimmed, lower-cased Name is none of the empty string, \<open>name\<close>,
  \<open>nan\<close>, \<open>none\<close>. The result has the single column \<open>Name\<close>, holding the trimmed
  names in the order of the rows.
\<close>

theorem entries_rows_sanitized:
  assumes "count_list (columns df) ''Name'' = 1" and "count_list (columns df) ''Status'' \<le> 1"
  shows "entries_sanitize df =
           Inr \<lparr>columns = [''Name''],
                rows = map (\<lambda>row. [Str (name_text (columns df) row)])
                         (filter (entry_row_kept (columns df)) (rows df))\<rparr>"
  using assms by (rule entries_sanitize_eq)

theorem entries_rows_sanitized_witness:
  "entries_sanitize
     \<lparr>columns = [''Name'', ''Date of entry'', ''Status''],
      rows = [[Str ''  Alex Smith '', Str ''1 May'', NaN],
              [Str ''Bo Roy'', Str ''2 May'', Str ''WITHDRAWN''],
              [Str ''Cy Dee'', Str ''2 May'', Str ''Withdrawn (late)''],
              [NaN, Str ''3 May'', NaN],
              [Str '''', NaN, NaN],
              [Str ''Name'', NaN, NaN],
              [Str ''NaN'', NaN, NaN],
              [Str ''None'', NaN, NaN],
              [Str ''  '', NaN, NaN],
              [Str ''Di Fox'', NaN, Str ''Accepted'']]\<rparr> =
   Inr \<lparr>columns = [''Name''], rows = [[Str ''Alex Smith''], [Str ''Di Fox'']]\<rparr>"
  using entries_rows_sanitized [of
     "\<lparr>columns = [''Name'', ''Date of entry'', ''Status''],
      rows = [[Str ''  Alex Smith '', Str ''1 May'', NaN],
              [Str ''Bo Roy'', Str ''2 May'', Str ''WITHDRAWN''],
              [Str ''Cy Dee'', Str ''2 May'', Str ''Withdrawn (late)''],
              [NaN, Str ''3 May'', NaN],
              [Str '''', NaN, NaN],
              [Str ''Name'', NaN, NaN],
              [Str ''NaN'', NaN, NaN],
              [Str ''None'', NaN, NaN],
              [Str ''  '', NaN, NaN],
              [Str ''Di Fox'', NaN, Str ''Accepted'']]\<rparr>"]
  by (simp add: entry_row_kept_def withdrawn_row_def name_text_def invalid_names_def
      get_cell_def astype_str_def lower_def lower_char_def strip_def isspace_def)

section \<open>The online entries table: which table is taken\<close>

lemma entries_loop_step:
  "entries_loop (df # tables) =
     (if \<not> entries_schema (map strip (columns df)) then entries_loop tables
      else case entries_sanitize (strip_columns df) of
             Inl e \<Rightarrow> Inl e
           | Inr r \<Rightarrow> if rows r = [] then entries_loop tables else Inr (Some r))"
proof -
  have ne: "''Name'' \<in> set (columns df2) \<Longrightarrow> frame_empty df2 = (rows df2 = [])" for df2
    by (auto simp add: frame_empty_def)
  have cl: "entries_clean df1 = Inr df2 \<Longrightarrow> columns df2 = columns df1" for df1 df2
    by (auto simp add: entries_clean_def drop_withdrawn_def clean_names_def mask_rows_def
        setitem_def dropna_def Let_def split: if_splits sum.splits)
  show ?thesis
  proof (cases "entries_clean (strip_columns df)")
    case (Inl e)
    then show ?thesis
      by (auto simp add: Let_def entries_schema_def entries_sanitize_def)
  next
    case (Inr df2)
    have "''Name'' \<in> set (map strip (columns df)) \<Longrightarrow> frame_empty df2 = (rows df2 = [])"
      using ne [of df2] cl [OF Inr] by simp
    with Inr show ?thesis
      by (auto simp add: Let_def entries_schema_def entries_sanitize_def getitem_list_def)
  qed
qed

lemma entries_loop_skip:
  "\<forall>df \<in> set pre. \<not> entries_schema (map strip (columns df)) \<or>
       (\<exists>r. entries_sanitize (strip_columns df) = Inr r \<and> rows r = []) \<Longrightarrow>
   entries_loop (pre @ rest) = entries_loop rest"
proof (induction pre)
  case Nil
  then show ?case by simp
next
  case (Cons df pre)
  then have ih: "entries_loop (pre @ rest) = entries_loop rest" by simp
  from Cons.prems have "\<not> entries_schema (map strip (columns df)) \<or>
       (\<exists>r. entries_sanitize (strip_columns df) = Inr r \<and> rows r = [])" by simp
  then show ?case
    by (auto simp only: append_Cons entries_loop_step ih if_True if_False sum.case split: if_splits)
qed

text \<open>
  Claim C3. \<open>extract_online_entries_table\<close> returns what the sanitization makes of
  the first table whose trimmed header has \<open>Name\<close> and a label containing \<open>date\<close> in
  any case, and which keeps at least one row. The tables before it either fail the
  header test or sanitize to no row, and are passed over; the tables after it have no
  part in the result.
\<close>

theorem first_entries_table_selected:
  assumes "\<forall>df \<in> set pre. \<not> entries_schema (map strip (columns df)) \<or>
             (\<exists>r. entries_sanitize (strip_columns df) = Inr r \<and> rows r = [])"
      and "entries_schema (map strip (columns t))"
      and "entries_sanitize (strip_columns t) = Inr r"
      and "rows r \<noteq> []"
  shows "extract_online_entries_table (Tables (pre @ t # post)) = Inr (Some r)"
  by (simp only: extract_online_entries_table_def read_html_result.case
      entries_loop_skip [OF assms(1)] entries_loop_step assms(2,3,4) not_True_eq_False
      if_False sum.case)

theorem first_entries_table_selected_witness:
  "extract_online_entries_table (Tables
     ([\<lparr>columns = [''Name'', ''Club''], rows = [[Str ''Zed'', Str ''LTC'']]\<rparr>,
       \<lparr>columns = [''Name'', ''Date of entry'', ''Status''],
        rows = [[Str ''Bo Roy'', Str ''2 May'', Str ''Withdrawn'']]\<rparr>] @
      \<lparr>columns = ['' Name'', ''Entry DATE''], rows = [[Str '' Alex Smith '', Str ''1 May'']]\<rparr> #
      [\<lparr>columns = [''Name'', ''Date''], rows = [[Str ''Di Fox'', Str ''3 May'']]\<rparr>])) =
   Inr (Some \<lparr>columns = [''Name''], rows = [[Str ''Alex Smith'']]\<rparr>)"
proof -
  have pre: "\<forall>df \<in> set [\<lparr>columns = [''Name'', ''Club''], rows = [[Str ''Zed'', Str ''LTC'']]\<rparr>,
                          \<lparr>columns = [''Name'', ''Date of entry'', ''Status''],
                           rows = [[Str ''Bo Roy'', Str ''2 May'', Str ''Withdrawn'']]\<rparr>].
               \<not> entries_schema (map strip (columns df)) \<or>
               (\<exists>r. entries_sanitize (strip_columns df) = Inr r \<and> rows r = [])"
    by (simp add: entries_eval frame_eval string_eval)
  have t: "entries_schema (map strip (columns
             \<lparr>columns = ['' Name'', ''Entry DATE''], rows = [[Str '' Alex Smith '', Str ''1 May'']]\<rparr>))"
    by (simp add: entries_eval string_eval)
  have s: "entries_sanitize (strip_columns
             \<lparr>columns = ['' Name'', ''Entry DATE''], rows = [[Str '' Alex Smith '', Str ''1 May'']]\<rparr>) =
           Inr \<lparr>columns = [''Name''], rows = [[Str ''Alex Smith'']]\<rparr>"
    by (simp add: entries_eval frame_eval string_eval)
  have n: "rows \<lparr>columns = [''Name''], rows = [[Str ''Alex Smith'']]\<rparr> \<noteq> []"
    by simp
  show ?thesis
    using first_entries_table_selected [OF pre t s n] .
qed

section \<open>No table, no matching table\<close>





section \<open>Sanitizing twice\<close>

lemma rename_label_fixes:
  "y \<noteq> ''Singles Points'' \<Longrightarrow> y \<noteq> ''Doubles Points'' \<Longrightarrow>
   y \<noteq> ''Singles points'' \<Longrightarrow> y \<noteq> ''Doubles points'' \<Longrightarrow>
   \<forall>x. (rename_label rename_map x = y) = (x = y)"
  by (auto simp add: rename_label_points)

lemma zip_ranking_fix_columns:
  "zip (columns (ranking_fix_columns df))
       (select_cells (map (\<lambda>c. \<not> startswith c ''Unnamed'') (columns df)) row) =
     map (\<lambda>(c, v). (rename_label rename_map c, v))
         (filter (\<lambda>(c, v). \<not> startswith c ''Unnamed'') (zip (columns df) row))"
  using zip_select_by_label [of "\<lambda>c. \<not> startswith c ''Unnamed''" "columns df" row]
  by (simp add: columns_ranking_fix_columns zip_map1 select_cells_by_label)

lemma get_cell_ranking_fix_columns:
  assumes "\<not> startswith y ''Unnamed''" and "\<forall>x. (rename_label rename_map x = y) = (x = y)"
  shows "get_cell (columns (ranking_fix_columns df))
           (select_cells (map (\<lambda>c. \<not> startswith c ''Unnamed'') (columns df)) row) y =
         get_cell (columns df) row y"
proof -
  have "map_of (map (\<lambda>(c, v). (rename_label rename_map c, v))
                  (filter (\<lambda>(c, v). \<not> startswith c ''Unnamed'') (zip (columns df) row))) y =
        map_of (zip (columns df) row) y"
    by (simp only: map_of_map_fixed [OF assms(2)]
        map_of_filter_keep [of "\<lambda>c. \<not> startswith c ''Unnamed''" y, OF assms(1)])
  then show ?thesis
    unfolding get_cell_def zip_ranking_fix_columns by (rule arg_cong)
qed

lemma ranking_row_dropped_fix_columns:
  "ranking_row_dropped (columns (ranking_fix_columns df))
     (select_cells (map (\<lambda>c. \<not> startswith c ''Unnamed'') (columns df)) row) =
   ranking_row_dropped (columns df) row"
proof -
  have r: "\<forall>x. (rename_label rename_map x = ''Rank'') = (x = ''Rank'')"
    by (rule rename_label_fixes) simp_all
  have p: "\<forall>x. (rename_label rename_map x = ''Player'') = (x = ''Player'')"
    by (rule rename_label_fixes) simp_all
  have "get_cell (columns (ranking_fix_columns df))
           (select_cells (map (\<lambda>c. \<not> startswith c ''Unnamed'') (columns df)) row) ''Rank'' =
        get_cell (columns df) row ''Rank''"
    by (rule get_cell_ranking_fix_columns [OF _ r]) simp
  moreover have "get_cell (columns (ranking_fix_columns df))
           (select_cells (map (\<lambda>c. \<not> startswith c ''Unnamed'') (columns df)) row) ''Player'' =
        get_cell (columns df) row ''Player''"
    by (rule get_cell_ranking_fix_columns [OF _ p]) simp
  ultimately show ?thesis
    by (simp only: ranking_row_dropped_def rank_text_def player_text_def)
qed

lemma count_ranking_fix_columns:
  assumes "\<not> startswith y ''Unnamed''" and "\<forall>x. (rename_label rename_map x = y) = (x = y)"
  shows "count_list (columns (ranking_fix_columns df)) y = count_list (columns df) y"
  unfolding columns_ranking_fix_columns
  using count_list_map_fixed [OF assms(2)]
    count_list_filter_keep [of "\<lambda>c. \<not> startswith c ''Unnamed''" y, OF assms(1)]
  by simp

lemma rename_label_not_unnamed:
  "\<not> startswith c ''Unnamed'' \<Longrightarrow> \<not> startswith (rename_label rename_map c) ''Unnamed''"
  by (auto simp add: rename_label_points)

lemma rename_label_idem:
  "rename_label rename_map (rename_label rename_map c) = rename_label rename_map c"
  by (simp add: rename_label_points)

lemma ranking_fix_columns_idem:
  "ranking_fix_columns (ranking_fix_columns df) = ranking_fix_columns df"
proof -
  let ?nu = "\<lambda>c. \<not> startswith c ''Unnamed''"
  let ?r = "ranking_fix_columns df"
  have all: "\<forall>c \<in> set (columns ?r). ?nu c"
    by (auto simp add: columns_ranking_fix_columns rename_label_not_unnamed)
  then have f: "filter ?nu (columns ?r) = columns ?r" by simp
  have cols: "columns (ranking_fix_columns ?r) = columns ?r"
    unfolding columns_ranking_fix_columns [of ?r] f
    by (simp add: columns_ranking_fix_columns rename_label_idem)
  have len: "length (columns ?r) = length (filter ?nu (columns df))"
    by (simp add: columns_ranking_fix_columns)
  have "select_cells (map ?nu (columns ?r)) row = row" if "row \<in> set (rows ?r)" for row
  proof (rule select_cells_all)
    show "\<forall>k \<in> set (map ?nu (columns ?r)). k" using all by simp
    from that obtain row0 where "row = select_cells (map ?nu (columns df)) row0"
      by (auto simp add: rows_ranking_fix_columns)
    then show "length row \<le> length (map ?nu (columns ?r))"
      using length_select_cells [of ?nu "columns df" row0] len by simp
  qed
  then have rws: "rows (ranking_fix_columns ?r) = rows ?r"
    unfolding rows_ranking_fix_columns [of ?r] by (simp add: map_idI)
  from cols rws show ?thesis by simp
qed

lemma ranking_sanitize_Inr_once:
  "ranking_sanitize df = Inr r \<Longrightarrow>
   count_list (columns df) ''Rank'' = 1 \<and> count_list (columns df) ''Player'' = 1"
proof -
  assume a: "ranking_sanitize df = Inr r"
  then obtain df2 where f: "ranking_filter_rows df = Inr df2"
    by (cases "ranking_filter_rows df") (simp_all add: ranking_sanitize_def)
  then obtain rank where s1: "series df ''Rank'' = Inr rank"
    by (cases "series df ''Rank''") (simp_all add: ranking_filter_rows_def)
  let ?df1 = "mask_rows df (map Not (map contains_page_or_results (map astype_str rank)))"
  from f s1 obtain player where s2: "series ?df1 ''Player'' = Inr player"
    unfolding ranking_filter_rows_def Let_def
    by (cases "series ?df1 ''Player''") (simp_all only: sum.case sum.distinct)
  have "columns ?df1 = columns df" by (simp add: mask_rows_def)
  with series_Inr_once [OF s1] series_Inr_once [OF s2] show ?thesis by simp
qed

lemma strip_rename_label:
  "strip c = c \<Longrightarrow> strip (rename_label rename_map c) = rename_label rename_map c"
proof -
  assume a: "strip c = c"
  have "strip ''Singles Points'' = ''Singles Points''" by (simp add: strip_def isspace_def)
  moreover have "strip ''Doubles Points'' = ''Doubles Points''" by (simp add: strip_def isspace_def)
  ultimately show ?thesis using a by (simp only: rename_label_points if_distrib [of strip] if_cancel)
qed

lemma ranking_sanitize_idem:
  assumes "ranking_sanitize (strip_columns df) = Inr r"
  shows "ranking_sanitize (strip_columns r) = Inr r"
proof -
  let ?d = "strip_columns df"
  let ?nu = "\<lambda>c. \<not> startswith c ''Unnamed''"
  let ?kept = "?d\<lparr>rows := filter (\<lambda>row. \<not> ranking_row_dropped (columns ?d) row) (rows ?d)\<rparr>"
  from ranking_sanitize_Inr_once [OF assms]
  have c1: "count_list (columns ?d) ''Rank'' = 1" and c2: "count_list (columns ?d) ''Player'' = 1"
    by simp_all
  from assms have r: "r = ranking_fix_columns ?kept"
    by (simp only: ranking_sanitize_eq [OF c1 c2] sum.inject)
  have ck: "columns ?kept = columns ?d" by simp
  have "\<forall>c \<in> set (columns r). strip c = c"
    unfolding r columns_ranking_fix_columns ck
    by (auto simp add: strip_idem strip_rename_label)
  then have "map strip (columns r) = columns r" by (simp add: map_idI)
  then have sr: "strip_columns r = r" by (simp add: strip_columns_def)
  have rr: "\<forall>x. (rename_label rename_map x = ''Rank'') = (x = ''Rank'')"
    by (rule rename_label_fixes) simp_all
  have rp: "\<forall>x. (rename_label rename_map x = ''Player'') = (x = ''Player'')"
    by (rule rename_label_fixes) simp_all
  have k1: "count_list (columns r) ''Rank'' = 1"
    unfolding r using count_ranking_fix_columns [OF _ rr, of ?kept] c1 by simp
  have k2: "count_list (columns r) ''Player'' = 1"
    unfolding r using count_ranking_fix_columns [OF _ rp, of ?kept] c2 by simp
  have "\<not> ranking_row_dropped (columns r) row" if "row \<in> set (rows r)" for row
  proof -
    from that obtain row0 where row0: "row0 \<in> set (rows ?kept)"
      and row: "row = select_cells (map ?nu (columns ?kept)) row0"
      unfolding r rows_ranking_fix_columns by auto
    from row0 have nd: "\<not> ranking_row_dropped (columns ?kept) row0" by simp
    have "ranking_row_dropped (columns r) row = ranking_row_dropped (columns ?kept) row0"
      unfolding r row by (rule ranking_row_dropped_fix_columns)
    with nd show ?thesis by blast
  qed
  then have "filter (\<lambda>row. \<not> ranking_row_dropped (columns r) row) (rows r) = rows r"
    by simp
  then have "r\<lparr>rows := filter (\<lambda>row. \<not> ranking_row_dropped (columns r) row) (rows r)\<rparr> = r"
    by simp
  then have "ranking_sanitize r = Inr (ranking_fix_columns r)"
    using ranking_sanitize_eq [OF k1 k2] by simp
  also have "ranking_fix_columns r = r"
    unfolding r by (rule ranking_fix_columns_idem)
  finally show ?thesis by (simp only: sr)
qed

lemma drop_withdrawn_Inr:
  assumes "drop_withdrawn df = Inr dw"
  shows "columns dw = columns df \<and> count_list (columns df) ''Status'' \<le> 1"
proof (cases "''Status'' \<in> set (columns df)")
  case True
  with assms obtain status where s: "series df ''Status'' = Inr status"
    by (cases "series df ''Status''") (simp_all add: drop_withdrawn_def)
  from assms True s have "columns dw = columns df"
    by (auto simp add: drop_withdrawn_def mask_rows_def Let_def)
  with series_Inr_once [OF s] show ?thesis by simp
next
  case False
  then have "count_list (columns df) ''Status'' = 0" by (simp add: count_list_0_iff)
  with assms False show ?thesis by (simp add: drop_withdrawn_def)
qed

lemma clean_names_Inr:
  assumes "clean_names df = Inr df1"
  shows "count_list (columns df) ''Name'' = 1"
proof -
  from assms obtain name where s: "series (dropna df ''Name'') ''Name'' = Inr name"
    unfolding clean_names_def Let_def
    by (cases "series (dropna df ''Name'') ''Name''") (simp_all only: sum.case sum.distinct)
  have "columns (dropna df ''Name'') = columns df" by (simp add: dropna_def)
  with series_Inr_once [OF s] show ?thesis by simp
qed

lemma entries_sanitize_Inr_once:
  assumes "entries_sanitize df = Inr e"
  shows "count_list (columns df) ''Name'' = 1 \<and> count_list (columns df) ''Status'' \<le> 1"
proof -
  from assms obtain df1 where c: "entries_clean df = Inr df1"
    by (cases "entries_clean df") (simp_all add: entries_sanitize_def)
  then obtain dw where d: "drop_withdrawn df = Inr dw" and n: "clean_names dw = Inr df1"
    by (cases "drop_withdrawn df") (simp_all add: entries_clean_def)
  from drop_withdrawn_Inr [OF d] clean_names_Inr [OF n] show ?thesis by simp
qed

lemma entries_sanitize_idem:
  assumes "entries_sanitize (strip_columns df) = Inr e"
  shows "entries_sanitize (strip_columns e) = Inr e"
proof -
  let ?d = "strip_columns df"
  let ?names = "map (\<lambda>row. [Str (name_text (columns ?d) row)])
                  (filter (entry_row_kept (columns ?d)) (rows ?d))"
  from entries_sanitize_Inr_once [OF assms]
  have c1: "count_list (columns ?d) ''Name'' = 1" and c2: "count_list (columns ?d) ''Status'' \<le> 1"
    by simp_all
  from assms have e: "e = \<lparr>columns = [''Name''], rows = ?names\<rparr>"
    by (simp only: entries_sanitize_eq [OF c1 c2] sum.inject)
  have sn: "strip ''Name'' = ''Name''" by (simp add: strip_def isspace_def)
  have se: "strip_columns e = e" by (simp add: e strip_columns_def sn)
  have k1: "count_list (columns e) ''Name'' = 1" by (simp add: e)
  have k2: "count_list (columns e) ''Status'' \<le> 1" by (simp add: e)
  have keep: "entry_row_kept [''Name''] row \<and> [Str (name_text [''Name''] row)] = row"
    if "row \<in> set ?names" for row
  proof -
    from that obtain row0 where row0: "entry_row_kept (columns ?d) row0"
      and row: "row = [Str (name_text (columns ?d) row0)]"
      by auto
    have ns: "strip (name_text (columns ?d) row0) = name_text (columns ?d) row0"
      by (simp add: name_text_def strip_idem)
    from row0 have "lower (name_text (columns ?d) row0) \<notin> invalid_names"
      by (simp add: entry_row_kept_def)
    with ns show ?thesis
      by (simp add: row entry_row_kept_def withdrawn_row_def name_text_def get_cell_def
          astype_str_def)
  qed
  have f: "filter (entry_row_kept [''Name'']) ?names = ?names"
    by (rule filter_True) (use keep in blast)
  have m: "map (\<lambda>row. [Str (name_text [''Name''] row)]) ?names = ?names"
    by (rule map_idI) (use keep in blast)
  have "entries_sanitize e =
          Inr \<lparr>columns = [''Name''],
               rows = map (\<lambda>row. [Str (name_text (columns e) row)])
                        (filter (entry_row_kept (columns e)) (rows e))\<rparr>"
    using k1 k2 by (rule entries_sanitize_eq)
  also have "\<dots> = Inr e"
  proof -
    have ce: "columns e = [''Name'']" and re: "rows e = ?names" by (simp_all only: e frame.simps)
    show ?thesis unfolding ce re f m by (simp only: e)
  qed
  finally show ?thesis by (simp only: se)
qed

text \<open>
  Claim C9. Sanitizing twice is sanitizing once. When lines 31 to 52 turn a table into
  the frame \<open>r\<close>, they turn \<open>r\<close> into \<open>r\<close>: no row and no column goes, no label
  changes. The same holds of the entries steps, the header trimming of lines 72 and 73
  with lines 81 to 100.
\<close>

theorem sanitize_idempotent:
  "(ranking_sanitize (strip_columns df) = Inr r \<longrightarrow> ranking_sanitize (strip_columns r) = Inr r) \<and>
   (entries_sanitize (strip_columns df) = Inr e \<longrightarrow> entries_sanitize (strip_columns e) = Inr e)"
  using ranking_sanitize_idem [of df r] entries_sanitize_idem [of df e] by blast

theorem sanitize_idempotent_witness:
  "ranking_sanitize (strip_columns
      \<lparr>columns = [''Unnamed: 0'', '' Rank'', ''Player'', ''Singles points''],
       rows = [[NaN, Str ''1'', Str ''Ann Lee'', Str ''120''],
               [NaN, Str ''Page 1 of 4'', NaN, NaN]]\<rparr>) =
     Inr \<lparr>columns = [''Rank'', ''Player'', ''Singles Points''],
          rows = [[Str ''1'', Str ''Ann Lee'', Str ''120'']]\<rparr> \<and>
   ranking_sanitize (strip_columns
      \<lparr>columns = [''Rank'', ''Player'', ''Singles Points''],
       rows = [[Str ''1'', Str ''Ann Lee'', Str ''120'']]\<rparr>) =
     Inr \<lparr>columns = [''Rank'', ''Player'', ''Singles Points''],
          rows = [[Str ''1'', Str ''Ann Lee'', Str ''120'']]\<rparr> \<and>
   entries_sanitize (strip_columns
      \<lparr>columns = [''Name'', ''Date of entry'', ''Status''],
       rows = [[Str '' Alex Smith '', Str ''1 May'', NaN],
               [Str ''Bo Roy'', Str ''2 May'', Str ''Withdrawn'']]\<rparr>) =
     Inr \<lparr>columns = [''Name''], rows = [[Str ''Alex Smith'']]\<rparr> \<and>
   entries_sanitize (strip_columns \<lparr>columns = [''Name''], rows = [[Str ''Alex Smith'']]\<rparr>) =
     Inr \<lparr>columns = [''Name''], rows = [[Str ''Alex Smith'']]\<rparr>"
proof -
  have a: "ranking_sanitize (strip_columns
      \<lparr>columns = [''Unnamed: 0'', '' Rank'', ''Player'', ''Singles points''],
       rows = [[NaN, Str ''1'', Str ''Ann Lee'', Str ''120''],
               [NaN, Str ''Page 1 of 4'', NaN, NaN]]\<rparr>) =
     Inr \<lparr>columns = [''Rank'', ''Player'', ''Singles Points''],
          rows = [[Str ''1'', Str ''Ann Lee'', Str ''120'']]\<rparr>"
    by (simp add: ranking_eval frame_eval string_eval)
  have b: "entries_sanitize (strip_columns
      \<lparr>columns = [''Name'', ''Date of entry'', ''Status''],
       rows = [[Str '' Alex Smith '', Str ''1 May'', NaN],
               [Str ''Bo Roy'', Str ''2 May'', Str ''Withdrawn'']]\<rparr>) =
     Inr \<lparr>columns = [''Name''], rows = [[Str ''Alex Smith'']]\<rparr>"
    by (simp add: entries_eval frame_eval string_eval)
  from a sanitize_idempotent [of
      "\<lparr>columns = [''Unnamed: 0'', '' Rank'', ''Player'', ''Singles points''],
       rows = [[NaN, Str ''1'', Str ''Ann Lee'', Str ''120''],
               [NaN, Str ''Page 1 of 4'', NaN, NaN]]\<rparr>"
      "\<lparr>columns = [''Rank'', ''Player'', ''Singles Points''],
          rows = [[Str ''1'', Str ''Ann Lee'', Str ''120'']]\<rparr>"]
  have c: "ranking_sanitize (strip_columns
      \<lparr>columns = [''Rank'', ''Player'', ''Singles Points''],
       rows = [[Str ''1'', Str ''Ann Lee'', Str ''120'']]\<rparr>) =
     Inr \<lparr>columns = [''Rank'', ''Player'', ''Singles Points''],
          rows = [[Str ''1'', Str ''Ann Lee'', Str ''120'']]\<rparr>"
    by blast
  from b sanitize_idempotent [of
      "\<lparr>columns = [''Name'', ''Date of entry'', ''Status''],
       rows = [[Str '' Alex Smith '', Str ''1 May'', NaN],
               [Str ''Bo Roy'', Str ''2 May'', Str ''Withdrawn'']]\<rparr>" _
      "\<lparr>columns = [''Name''], rows = [[Str ''Alex Smith'']]\<rparr>"]
  have d: "entries_sanitize (strip_columns \<lparr>columns = [''Name''], rows = [[Str ''Alex Smith'']]\<rparr>) =
     Inr \<lparr>columns = [''Name''], rows = [[Str ''Alex Smith'']]\<rparr>"
    by blast
  from a b c d show ?thesis by (intro conjI)
qed

section \<open>The aggregator: pages opened, rows saved\<close>







lemma total_rows_append:
  "total_rows (xs @ ys) = total_rows xs + total_rows ys"
  by (simp add: total_rows_def)












section \<open>The artifact column\<close>

lemma columns_drop_columns:
  "columns (drop_columns df c) = filter (\<lambda>k. k \<noteq> c) (columns df)"
  by (simp add: drop_columns_def select_columns_def select_cells_by_label)

lemma labelled_drop_columns:
  "map (zip (columns (drop_columns df c))) (rows (drop_columns df c)) =
     map (\<lambda>row. filter (\<lambda>(k, v). k \<noteq> c) (zip (columns df) row)) (rows df)"
  by (simp add: drop_columns_def select_columns_def zip_select_by_label)

text \<open>
  Claim C7. Lines 175 and 176: a frame with a column labelled \<open>Rank.1\<close> loses it, and
  keeps its other columns, its rows and the order of both, every remaining cell under
  its label; a frame with no such column is returned as it is.
\<close>

theorem rank1_column_dropped:
  "(''Rank.1'' \<notin> set (columns df) \<longrightarrow> drop_rank1 df = df) \<and>
   columns (drop_rank1 df) = filter (\<lambda>c. c \<noteq> ''Rank.1'') (columns df) \<and>
   length (rows (drop_rank1 df)) = length (rows df) \<and>
   map (zip (columns (drop_rank1 df))) (rows (drop_rank1 df)) =
     map (\<lambda>row. filter (\<lambda>(c, v). c \<noteq> ''Rank.1'') (zip (columns df) row)) (rows df)"
proof (cases "''Rank.1'' \<in> set (columns df)")
  case True
  then show ?thesis
    using labelled_drop_columns [of df "''Rank.1''"]
    by (simp add: drop_rank1_def columns_drop_columns)
      (simp add: drop_columns_def select_columns_def)
next
  case False
  then show ?thesis
    by (simp add: drop_rank1_def filter_absent filter_zip_absent)
qed

theorem rank1_column_dropped_witness:
  "drop_rank1 \<lparr>columns = [''Rank'', ''Player''], rows = [[Str ''1'', Str ''Ann Lee'']]\<rparr> =
     \<lparr>columns = [''Rank'', ''Player''], rows = [[Str ''1'', Str ''Ann Lee'']]\<rparr> \<and>
   columns (drop_rank1 \<lparr>columns = [''Rank'', ''Rank.1'', ''Player''],
                        rows = [[Str ''1'', Str ''1'', Str ''Ann Lee''], [Str ''2'', NaN, Str ''Bo Roy'']]\<rparr>) =
     [''Rank'', ''Player''] \<and>
   map (zip (columns (drop_rank1 \<lparr>columns = [''Rank'', ''Rank.1'', ''Player''],
                        rows = [[Str ''1'', Str ''1'', Str ''Ann Lee''], [Str ''2'', NaN, Str ''Bo Roy'']]\<rparr>)))
       (rows (drop_rank1 \<lparr>columns = [''Rank'', ''Rank.1'', ''Player''],
                        rows = [[Str ''1'', Str ''1'', Str ''Ann Lee''], [Str ''2'', NaN, Str ''Bo Roy'']]\<rparr>)) =
     [[(''Rank'', Str ''1''), (''Player'', Str ''Ann Lee'')],
      [(''Rank'', Str ''2''), (''Player'', Str ''Bo Roy'')]]"
  using rank1_column_dropped [of "\<lparr>columns = [''Rank'', ''Player''], rows = [[Str ''1'', Str ''Ann Lee'']]\<rparr>"]
    rank1_column_dropped [of "\<lparr>columns = [''Rank'', ''Rank.1'', ''Player''],
                        rows = [[Str ''1'', Str ''1'', Str ''Ann Lee''], [Str ''2'', NaN, Str ''Bo Roy'']]\<rparr>"]
  by (simp add: drop_rank1_def drop_columns_def select_columns_def select_cells_def)

end
